theory Spec2Isabelle
  imports Main
begin

section \<open>The JavaScript runtime: completions and promises\<close>

text \<open>
  A JavaScript call either returns a value or throws; a promise is fulfilled, rejected or
  never settles. A handler returns either an ordinary value or a promise. Time is
  collapsed: a promise stands for its eventual settlement, \<open>Pending\<close> for one that never
  settles.
\<close>

datatype ('a, 'e) completion = Normal 'a | Throw 'e

datatype ('v, 'e) promise = Fulfilled 'v | Rejected 'e | Pending

datatype ('v, 'e) jsvalue = Plain 'v | PromiseOf "('v, 'e) promise"

text \<open>\<open>Promise.resolve(x)\<close>: a promise is passed through, any other value is wrapped.\<close>

definition promise_resolve :: "('v, 'e) jsvalue \<Rightarrow> ('v, 'e) promise" where
  "promise_resolve x = (case x of Plain v \<Rightarrow> Fulfilled v | PromiseOf p \<Rightarrow> p)"

text \<open>
  \<open>p.catch(onRejected)\<close>: the callback runs only when \<open>p\<close> is rejected; the promise
  that \<open>catch\<close> returns is resolved with what the callback returns and rejected with what
  it throws. The callback acts on a state \<open>'t\<close>.
\<close>

definition promise_catch ::
  "('v, 'e) promise \<Rightarrow> ('e \<Rightarrow> 't \<Rightarrow> (('v, 'e) jsvalue, 'e) completion \<times> 't) \<Rightarrow> 't
    \<Rightarrow> ('v, 'e) promise \<times> 't" where
  "promise_catch p onRejected t =
     (case p of
        Fulfilled v \<Rightarrow> (Fulfilled v, t)
      | Pending \<Rightarrow> (Pending, t)
      | Rejected err \<Rightarrow>
          (case onRejected err t of
             (Normal r, t') \<Rightarrow> (promise_resolve r, t')
           | (Throw err', t') \<Rightarrow> (Rejected err', t')))"

section \<open>utils/asyncHandler.js\<close>

text \<open>
  The continuation \<open>next\<close> and the request handler act on the state \<open>'s\<close> of the rest of
  the application (the Express pipeline). The handler receives \<open>next\<close> and may call it
  itself. What one call of the wrapper does is recorded as: how the call itself completes
  (\<open>returned\<close>), the promise built by \<open>.catch\<close>, which nobody observes (\<open>chained\<close>; a
  rejected one is an unhandled rejection), the arguments with which the wrapper's own
  callback called \<open>next\<close>, in order (\<open>forwarded\<close>), and the state left behind (\<open>final\<close>).
\<close>

type_synonym ('v, 'e, 's) continuation = "'e \<Rightarrow> 's \<Rightarrow> (('v, 'e) jsvalue, 'e) completion \<times> 's"

type_synonym ('q, 'r, 'v, 'e, 's) handler =
  "'q \<Rightarrow> 'r \<Rightarrow> ('v, 'e, 's) continuation \<Rightarrow> 's \<Rightarrow> (('v, 'e) jsvalue, 'e) completion \<times> 's"

record ('v, 'e, 's) outcome =
  returned :: "(unit, 'e) completion"
  chained :: "('v, 'e) promise option"
  forwarded :: "'e list"
  final :: 's

definition asyncHandler ::
  "('q, 'r, 'v, 'e, 's) handler \<Rightarrow> 'q \<Rightarrow> 'r \<Rightarrow> ('v, 'e, 's) continuation \<Rightarrow> 's
    \<Rightarrow> ('v, 'e, 's) outcome" where
  "asyncHandler requestHandler req res next s =
     (case requestHandler req res next s of
        (Throw err, s1) \<Rightarrow>
          \<lparr>returned = Throw err, chained = None, forwarded = [], final = s1\<rparr>
      | (Normal r, s1) \<Rightarrow>
          (case promise_catch (promise_resolve r)
                  (\<lambda>err (s, fw). case next err s of (c, s') \<Rightarrow> (c, (s', fw @ [err])))
                  (s1, [])
           of (p, (s2, fw)) \<Rightarrow>
                \<lparr>returned = Normal (), chained = Some p, forwarded = fw, final = s2\<rparr>))"

text \<open>A continuation that only records its arguments, as a test double of \<open>next\<close> does.\<close>

definition recording_next :: "(unit, string, string list) continuation" where
  "recording_next err calls = (Normal (Plain ()), calls @ [err])"

text \<open>Three handlers: one answers, one throws before it returns, one returns a promise
  that rejects (what an \<open>async\<close> function does when it throws).\<close>

definition responding_handler :: "(unit, unit, unit, string, string list) handler" where
  "responding_handler req res next calls = (Normal (PromiseOf (Fulfilled ())), calls)"

definition throwing_handler :: "(unit, unit, unit, string, string list) handler" where
  "throwing_handler req res next calls = (Throw ''boom'', calls)"

definition rejecting_handler :: "(unit, unit, unit, string, string list) handler" where
  "rejecting_handler req res next calls = (Normal (PromiseOf (Rejected ''boom'')), calls)"

section \<open>utils/ApiError.js\<close>

datatype stack_trace = Supplied string | Captured

record 'x api_error =
  statusCode :: int
  data :: "'x option"
  message :: string
  success :: bool
  errors :: "'x list"
  stack :: stack_trace

text \<open>A default parameter value applies when the argument is omitted (\<open>undefined\<close>).\<close>

definition default_param :: "'a \<Rightarrow> 'a option \<Rightarrow> 'a" where
  "default_param d arg = (case arg of None \<Rightarrow> d | Some v \<Rightarrow> v)"

definition ApiError ::
  "int \<Rightarrow> string option \<Rightarrow> 'x list option \<Rightarrow> string option \<Rightarrow> 'x api_error" where
  "ApiError status msg errs stk =
     (let msg' = default_param ''Something went wrong'' msg;
          errs' = default_param [] errs;
          stk' = default_param [] stk
      in \<lparr>statusCode = status, data = None, message = msg', success = False,
          errors = errs', stack = (if stk' \<noteq> [] then Supplied stk' else Captured)\<rparr>)"

section \<open>Strings\<close>

text \<open>
  Identifier strings (\<open>username\<close>, \<open>email\<close>, \<open>fullName\<close>) are lists of code units below
  256 (Latin-1), on which \<open>String.prototype.toLowerCase\<close> and \<open>String.prototype.trim\<close>
  are modelled exactly: the upper-case letters are A-Z and U+00C0-U+00DE without U+00D7,
  each 32 below its lower-case letter; the white space and line terminators are U+0009-U+000D,
  U+0020 and U+00A0.
\<close>

definition isUpperCase :: "char \<Rightarrow> bool" where
  "isUpperCase c =
     (let n = (of_char c :: nat)
      in (65 \<le> n \<and> n \<le> 90) \<or> (192 \<le> n \<and> n \<le> 222 \<and> n \<noteq> 215))"

definition toLowerCase_char :: "char \<Rightarrow> char" where
  "toLowerCase_char c = (if isUpperCase c then char_of ((of_char c :: nat) + 32) else c)"

definition toLowerCase :: "string \<Rightarrow> string" where
  "toLowerCase s = map toLowerCase_char s"

definition isWhiteSpace :: "char \<Rightarrow> bool" where
  "isWhiteSpace c = ((of_char c :: nat) \<in> {9, 10, 11, 12, 13, 32, 160})"

definition trim :: "string \<Rightarrow> string" where
  "trim s = rev (dropWhile isWhiteSpace (rev (dropWhile isWhiteSpace s)))"



section \<open>Errors\<close>

datatype error =
    Error string
  | ValidationError "string list"
  | MongoServerError string
  | DocumentNotFoundError
  | JsonWebTokenError string
  | TokenExpiredError

section \<open>The bcrypt library\<close>

text \<open>
  A password string is either literal text (\<open>Lit\<close>, its UTF-8 bytes) or the text that
  \<open>bcrypt.hash\<close> printed for some data, cost and salt (\<open>BcryptDigest\<close>). The digest is
  symbolic: bcrypt is taken as a perfect one-way function, so a digest is determined by, and
  determines, its cost, its salt and the first 72 bytes of its data, and it is never
  literal text. The salt that \<open>bcrypt.hash\<close> draws at random is an input of the model
  (\<open>rnd\<close>); \<open>None\<close> there is a failure inside the library.
\<close>

type_synonym salt = nat

datatype jsstring = Lit string | BcryptDigest nat salt jsstring

fun bcrypt_trunc :: "jsstring \<Rightarrow> jsstring" where
  "bcrypt_trunc (Lit s) = Lit (take 72 s)"
| "bcrypt_trunc (BcryptDigest rounds slt d) = BcryptDigest rounds slt d"

definition bcrypt_digest :: "nat \<Rightarrow> salt \<Rightarrow> jsstring \<Rightarrow> jsstring" where
  "bcrypt_digest rounds slt d = BcryptDigest rounds slt (bcrypt_trunc d)"

definition bcrypt_hash :: "salt option \<Rightarrow> jsstring option \<Rightarrow> nat \<Rightarrow> error + jsstring" where
  "bcrypt_hash rnd d rounds =
     (case d of
        None \<Rightarrow> Inl (Error ''data and salt arguments required'')
      | Some plain \<Rightarrow>
          (case rnd of
             None \<Rightarrow> Inl (Error ''bcrypt failed'')
           | Some slt \<Rightarrow> Inr (bcrypt_digest rounds slt plain)))"

text \<open>\<open>bcrypt.compare\<close> hashes the data again with the cost and salt of the stored digest.\<close>

definition bcrypt_compare :: "jsstring option \<Rightarrow> jsstring option \<Rightarrow> error + bool" where
  "bcrypt_compare d h =
     (case d of
        None \<Rightarrow> Inl (Error ''data and hash arguments required'')
      | Some plain \<Rightarrow>
          (case h of
             None \<Rightarrow> Inl (Error ''data and hash arguments required'')
           | Some (Lit s) \<Rightarrow> Inr False
           | Some (BcryptDigest rounds slt x) \<Rightarrow>
               Inr (bcrypt_digest rounds slt plain = BcryptDigest rounds slt x)))"

section \<open>The User model: schema\<close>

type_synonym objectId = nat

text \<open>
  A User document. \<open>obj_id\<close> is the \<open>_id\<close> path; a path that is not set is \<open>None\<close>;
  \<open>createdAt\<close> and \<open>updatedAt\<close> come from \<open>timestamps: true\<close> (milliseconds).
\<close>

record user =
  obj_id :: objectId
  username :: "string option"
  email :: "string option"
  fullName :: "string option"
  avatar :: "string option"
  coverImage :: "string option"
  watchHistory :: "objectId list"
  password :: "jsstring option"
  refreshToken :: "string option"
  createdAt :: "int option"
  updatedAt :: "int option"

text \<open>The schema's setters: \<open>lowercase: true, trim: true\<close> on \<open>username\<close> and \<open>email\<close>,
  \<open>trim: true\<close> on \<open>fullName\<close>. Mongoose runs the setters of a path last-declared first.\<close>

definition set_username :: "string \<Rightarrow> string" where
  "set_username v = toLowerCase (trim v)"

definition set_email :: "string \<Rightarrow> string" where
  "set_email v = toLowerCase (trim v)"

definition set_fullName :: "string \<Rightarrow> string" where
  "set_fullName v = trim v"

text \<open>\<open>required: true\<close> on a String path: the value is set and is not the empty string.\<close>

definition required :: "string option \<Rightarrow> bool" where
  "required v = (case v of None \<Rightarrow> False | Some s \<Rightarrow> s \<noteq> [])"

definition required_password :: "jsstring option \<Rightarrow> bool" where
  "required_password v = (case v of None \<Rightarrow> False | Some s \<Rightarrow> s \<noteq> Lit [])"

definition validate :: "user \<Rightarrow> error + unit" where
  "validate u =
     (let failing =
            (if required (username u) then [] else [''username''])
          @ (if required (email u) then [] else [''email''])
          @ (if required (fullName u) then [] else [''fullName''])
          @ (if required (avatar u) then [] else [''avatar''])
          @ (if required_password (password u) then [] else [''password''])
      in if failing = [] then Inr () else Inl (ValidationError failing))"

section \<open>The User model: documents and change tracking\<close>

text \<open>
  A document in memory: its values, the paths modified since the last persisted state, and
  whether it has never been saved.
\<close>

record document =
  obj :: user
  modifiedPaths :: "string set"
  isNew :: bool

definition isModified :: "document \<Rightarrow> string \<Rightarrow> bool" where
  "isModified d path = (path \<in> modifiedPaths d)"

text \<open>An assignment marks its path modified on a new document, or when the value changes.\<close>

definition mark_path :: "string \<Rightarrow> bool \<Rightarrow> document \<Rightarrow> document" where
  "mark_path path changed d =
     (if isNew d \<or> changed then d\<lparr>modifiedPaths := insert path (modifiedPaths d)\<rparr> else d)"

definition assign_username :: "string \<Rightarrow> document \<Rightarrow> document" where
  "assign_username v d =
     (let v' = set_username v
      in mark_path ''username'' (username (obj d) \<noteq> Some v')
           (d\<lparr>obj := (obj d)\<lparr>username := Some v'\<rparr>\<rparr>))"

definition assign_email :: "string \<Rightarrow> document \<Rightarrow> document" where
  "assign_email v d =
     (let v' = set_email v
      in mark_path ''email'' (email (obj d) \<noteq> Some v')
           (d\<lparr>obj := (obj d)\<lparr>email := Some v'\<rparr>\<rparr>))"

definition assign_password :: "jsstring \<Rightarrow> document \<Rightarrow> document" where
  "assign_password v d =
     mark_path ''password'' (password (obj d) \<noteq> Some v)
       (d\<lparr>obj := (obj d)\<lparr>password := Some v\<rparr>\<rparr>)"

definition assign_refreshToken :: "string \<Rightarrow> document \<Rightarrow> document" where
  "assign_refreshToken v d =
     mark_path ''refreshToken'' (refreshToken (obj d) \<noteq> Some v)
       (d\<lparr>obj := (obj d)\<lparr>refreshToken := Some v\<rparr>\<rparr>)"

text \<open>\<open>new User(raw)\<close>: every supplied path goes through its setters and is marked modified.\<close>

definition supplied :: "user \<Rightarrow> string set" where
  "supplied raw =
       (if username raw = None then {} else {''username''})
     \<union> (if email raw = None then {} else {''email''})
     \<union> (if fullName raw = None then {} else {''fullName''})
     \<union> (if avatar raw = None then {} else {''avatar''})
     \<union> (if coverImage raw = None then {} else {''coverImage''})
     \<union> (if watchHistory raw = [] then {} else {''watchHistory''})
     \<union> (if password raw = None then {} else {''password''})
     \<union> (if refreshToken raw = None then {} else {''refreshToken''})"

definition new_User :: "user \<Rightarrow> document" where
  "new_User raw =
     \<lparr>obj = raw\<lparr>username := map_option set_username (username raw),
                email := map_option set_email (email raw),
                fullName := map_option set_fullName (fullName raw)\<rparr>,
      modifiedPaths = supplied raw,
      isNew = True\<rparr>"

section \<open>The User model: the pre-save hook and the methods\<close>

text \<open>
  \<open>userSchema.pre("save", async function (next) {...})\<close>. \<open>Inr\<close> is the document with
  which persistence goes on (\<open>next()\<close> was called); \<open>Inl\<close> is the rejection of the
  hook's promise when the awaited \<open>bcrypt.hash\<close> fails, before the assignment and before
  \<open>next()\<close>.
\<close>

definition pre_save :: "salt option \<Rightarrow> document \<Rightarrow> error + document" where
  "pre_save rnd this =
     (if \<not> isModified this ''password'' then Inr this
      else
        (case bcrypt_hash rnd (password (obj this)) 10 of
           Inl err \<Rightarrow> Inl err
         | Inr hashed \<Rightarrow> Inr (assign_password hashed this)))"

definition isPasswordCorrect :: "user \<Rightarrow> jsstring option \<Rightarrow> error + bool" where
  "isPasswordCorrect this candidate = bcrypt_compare candidate (password this)"

section \<open>Persistence: \<open>save\<close>\<close>

text \<open>
  The \<open>users\<close> collection is the list of stored documents in insertion order. Both
  \<open>username\<close> and \<open>email\<close> carry a unique index; \<open>_id\<close> is unique as in every
  collection.
\<close>

type_synonym collection = "user list"

definition findById :: "collection \<Rightarrow> objectId \<Rightarrow> user option" where
  "findById coll i = find (\<lambda>x. obj_id x = i) coll"

definition unique_violation :: "collection \<Rightarrow> user \<Rightarrow> string option" where
  "unique_violation coll u =
     (if list_ex (\<lambda>x. obj_id x \<noteq> obj_id u \<and> username x = username u) coll then Some ''username''
      else if list_ex (\<lambda>x. obj_id x \<noteq> obj_id u \<and> email x = email u) coll then Some ''email''
      else None)"

text \<open>\<open>timestamps: true\<close>: \<open>createdAt\<close> on the first save, \<open>updatedAt\<close> on every save
  that has something to write. \<open>clock\<close> is \<open>Date.now()\<close>.\<close>

definition timestamps :: "int \<Rightarrow> document \<Rightarrow> document" where
  "timestamps clock d =
     (if isNew d then
        (let c = (case createdAt (obj d) of None \<Rightarrow> clock | Some t \<Rightarrow> t)
         in d\<lparr>obj := (obj d)\<lparr>createdAt := Some c, updatedAt := Some c\<rparr>,
              modifiedPaths := modifiedPaths d \<union> {''createdAt'', ''updatedAt''}\<rparr>)
      else if modifiedPaths d \<noteq> {} then
        d\<lparr>obj := (obj d)\<lparr>updatedAt := Some clock\<rparr>,
          modifiedPaths := insert ''updatedAt'' (modifiedPaths d)\<rparr>
      else d)"

text \<open>An update writes the modified paths only (\<open>$set\<close>); the other stored paths stay.\<close>

definition apply_delta :: "string set \<Rightarrow> user \<Rightarrow> user \<Rightarrow> user" where
  "apply_delta paths src old =
     old\<lparr>username := (if ''username'' \<in> paths then username src else username old),
         email := (if ''email'' \<in> paths then email src else email old),
         fullName := (if ''fullName'' \<in> paths then fullName src else fullName old),
         avatar := (if ''avatar'' \<in> paths then avatar src else avatar old),
         coverImage := (if ''coverImage'' \<in> paths then coverImage src else coverImage old),
         watchHistory := (if ''watchHistory'' \<in> paths then watchHistory src else watchHistory old),
         password := (if ''password'' \<in> paths then password src else password old),
         refreshToken := (if ''refreshToken'' \<in> paths then refreshToken src else refreshToken old),
         createdAt := (if ''createdAt'' \<in> paths then createdAt src else createdAt old),
         updatedAt := (if ''updatedAt'' \<in> paths then updatedAt src else updatedAt old)\<rparr>"

definition write_doc :: "collection \<Rightarrow> document \<Rightarrow> error + collection" where
  "write_doc coll d =
     (if isNew d then
        (if list_ex (\<lambda>x. obj_id x = obj_id (obj d)) coll
         then Inl (MongoServerError ''E11000 duplicate key: _id'')
         else
           (case unique_violation coll (obj d) of
              Some ix \<Rightarrow> Inl (MongoServerError (''E11000 duplicate key: '' @ ix))
            | None \<Rightarrow> Inr (coll @ [obj d])))
      else
        (case findById coll (obj_id (obj d)) of
           None \<Rightarrow> Inl DocumentNotFoundError
         | Some old \<Rightarrow>
             (let new = apply_delta (modifiedPaths d) (obj d) old
              in case unique_violation coll new of
                   Some ix \<Rightarrow> Inl (MongoServerError (''E11000 duplicate key: '' @ ix))
                 | None \<Rightarrow> Inr (map (\<lambda>x. if obj_id x = obj_id new then new else x) coll))))"

text \<open>
  \<open>doc.save()\<close>: validation, then the schema's pre-save hook, then the timestamps, then the
  write. A failure of any step rejects the save and leaves the collection as it was. The
  result is the saved document, clean and no longer new, and the collection.
\<close>

definition save ::
  "salt option \<Rightarrow> int \<Rightarrow> collection \<Rightarrow> document \<Rightarrow> (error + document) \<times> collection" where
  "save rnd clock coll d =
     (case validate (obj d) of
        Inl err \<Rightarrow> (Inl err, coll)
      | Inr _ \<Rightarrow>
          (case pre_save rnd d of
             Inl err \<Rightarrow> (Inl err, coll)
           | Inr d1 \<Rightarrow>
               (let d2 = timestamps clock d1
                in case write_doc coll d2 of
                     Inl err \<Rightarrow> (Inl err, coll)
                   | Inr coll' \<Rightarrow> (Inr (d2\<lparr>modifiedPaths := {}, isNew := False\<rparr>), coll'))))"

text \<open>A document read back from the collection is clean.\<close>

definition load :: "collection \<Rightarrow> objectId \<Rightarrow> document option" where
  "load coll i =
     map_option (\<lambda>u. \<lparr>obj = u, modifiedPaths = {}, isNew = False\<rparr>) (findById coll i)"

section \<open>The jsonwebtoken library\<close>

text \<open>
  A token is its header, its payload and its signature (the three segments of the compact
  form). The HS256 signature is symbolic: a perfect MAC, determined by, and determining,
  the key and the signed header and payload.
\<close>

datatype json = JString string | JNumber int | JObjectId objectId

type_synonym claims = "(string \<times> json) list"

datatype jws_signature = HMAC_SHA256 string claims claims

record jwt =
  jose_header :: claims
  payload :: claims
  signature :: jws_signature

text \<open>\<open>JSON.stringify\<close> leaves out the properties whose value is \<open>undefined\<close>.\<close>

definition json_stringify :: "(string \<times> json option) list \<Rightarrow> claims" where
  "json_stringify props = List.map_filter (\<lambda>(k, v). map_option (\<lambda>x. (k, x)) v) props"

text \<open>
  \<open>jwt.sign(payload, secretOrPrivateKey, {expiresIn})\<close>. \<open>clock\<close> is \<open>Date.now()\<close> in
  milliseconds; \<open>expiresIn\<close> is the time span in milliseconds that the library reads from
  the option's string (\<open>None\<close>: the option is \<open>undefined\<close> or does not parse).
\<close>

definition jwt_sign ::
  "(string \<times> json option) list \<Rightarrow> string option \<Rightarrow> int option \<Rightarrow> int \<Rightarrow> error + jwt" where
  "jwt_sign props secretOrPrivateKey expiresIn clock =
     (case secretOrPrivateKey of
        None \<Rightarrow> Inl (Error ''secretOrPrivateKey must have a value'')
      | Some key \<Rightarrow>
          if key = [] then Inl (Error ''secretOrPrivateKey must have a value'')
          else
            (case expiresIn of
               None \<Rightarrow> Inl (Error ''expiresIn should be a number of seconds or string representing a timespan'')
             | Some span \<Rightarrow>
                 (let iat = clock div 1000;
                      hdr = [(''alg'', JString ''HS256''), (''typ'', JString ''JWT'')];
                      body = json_stringify props
                             @ [(''iat'', JNumber iat), (''exp'', JNumber (iat + span div 1000))]
                  in Inr \<lparr>jose_header = hdr, payload = body,
                          signature = HMAC_SHA256 key hdr body\<rparr>)))"

definition jwt_decode :: "jwt \<Rightarrow> claims" where
  "jwt_decode token = payload token"

definition jwt_verify :: "jwt \<Rightarrow> string option \<Rightarrow> int \<Rightarrow> error + claims" where
  "jwt_verify token secretOrPublicKey clock =
     (case secretOrPublicKey of
        None \<Rightarrow> Inl (JsonWebTokenError ''secret or public key must be provided'')
      | Some key \<Rightarrow>
          if key = [] then Inl (JsonWebTokenError ''secret or public key must be provided'')
          else if signature token \<noteq> HMAC_SHA256 key (jose_header token) (payload token)
          then Inl (JsonWebTokenError ''invalid signature'')
          else
            (case map_of (payload token) ''exp'' of
               Some (JNumber e) \<Rightarrow>
                 if e \<le> clock div 1000 then Inl TokenExpiredError else Inr (payload token)
             | _ \<Rightarrow> Inr (payload token)))"

text \<open>The registered claim names of RFC 7519; the other claims are the application's.\<close>

definition registered_claims :: "string list" where
  "registered_claims = [''iss'', ''sub'', ''aud'', ''exp'', ''nbf'', ''iat'', ''jti'']"

definition application_claims :: "claims \<Rightarrow> claims" where
  "application_claims cs = filter (\<lambda>(k, v). k \<notin> set registered_claims) cs"

section \<open>The User model: token methods\<close>

text \<open>The part of \<open>process.env\<close> that the model reads.\<close>

record env =
  ACCESS_TOKEN_SECRET :: "string option"
  ACCESS_TOKEN_EXPIRY :: "int option"
  REFRESH_TOKEN_SECRET :: "string option"
  REFRESH_TOKEN_EXPIRY :: "int option"

definition generateAccessToken :: "env \<Rightarrow> int \<Rightarrow> user \<Rightarrow> error + jwt" where
  "generateAccessToken process_env clock this =
     jwt_sign
       [(''_id'', Some (JObjectId (obj_id this))),
        (''email'', map_option JString (email this)),
        (''username'', map_option JString (username this)),
        (''fullName'', map_option JString (fullName this))]
       (ACCESS_TOKEN_SECRET process_env)
       (ACCESS_TOKEN_EXPIRY process_env)
       clock"

definition generateRefreshToken :: "env \<Rightarrow> int \<Rightarrow> user \<Rightarrow> error + jwt" where
  "generateRefreshToken process_env clock this =
     jwt_sign
       [(''_id'', Some (JObjectId (obj_id this)))]
       (REFRESH_TOKEN_SECRET process_env)
       (REFRESH_TOKEN_EXPIRY process_env)
       clock"

section \<open>Example data\<close>

text \<open>The registration of the specification's example, and a configuration.\<close>

definition alice :: user where
  "alice =
     \<lparr>obj_id = 1, username = Some ''Alice'', email = Some ''A@x.com'',
      fullName = Some ''Alice A'', avatar = Some ''http://x/a.png'', coverImage = None,
      watchHistory = [], password = Some (Lit ''secret123''), refreshToken = None,
      createdAt = None, updatedAt = None\<rparr>"

definition example_env :: env where
  "example_env =
     \<lparr>ACCESS_TOKEN_SECRET = Some ''access-secret'', ACCESS_TOKEN_EXPIRY = Some 86400000,
      REFRESH_TOKEN_SECRET = Some ''refresh-secret'', REFRESH_TOKEN_EXPIRY = Some 864000000\<rparr>"

text \<open>The stored record of that registration (salt 7, saved at 5000 ms), the document read
  back from the collection, and two edits of it.\<close>

definition alice_stored :: user where
  "alice_stored =
     \<lparr>obj_id = 1, username = Some ''alice'', email = Some ''a@x.com'',
      fullName = Some ''Alice A'', avatar = Some ''http://x/a.png'', coverImage = None,
      watchHistory = [], password = Some (BcryptDigest 10 7 (Lit ''secret123'')),
      refreshToken = None, createdAt = Some 5000, updatedAt = Some 5000\<rparr>"

definition alice_loaded :: document where
  "alice_loaded = \<lparr>obj = alice_stored, modifiedPaths = {}, isNew = False\<rparr>"

definition alice_with_token :: document where
  "alice_with_token = assign_refreshToken ''token'' alice_loaded"

definition alice_new_password :: document where
  "alice_new_password = assign_password (Lit ''hunter2'') alice_loaded"

text \<open>The tokens of the stored record under \<open>example_env\<close> at 5000 ms.\<close>

definition alice_access_token :: jwt where
  "alice_access_token =
     \<lparr>jose_header = [(''alg'', JString ''HS256''), (''typ'', JString ''JWT'')],
      payload = [(''_id'', JObjectId 1), (''email'', JString ''a@x.com''),
                 (''username'', JString ''alice''), (''fullName'', JString ''Alice A''),
                 (''iat'', JNumber 5), (''exp'', JNumber 86405)],
      signature = HMAC_SHA256 ''access-secret''
                    [(''alg'', JString ''HS256''), (''typ'', JString ''JWT'')]
                    [(''_id'', JObjectId 1), (''email'', JString ''a@x.com''),
                     (''username'', JString ''alice''), (''fullName'', JString ''Alice A''),
                     (''iat'', JNumber 5), (''exp'', JNumber 86405)]\<rparr>"

definition alice_refresh_token :: jwt where
  "alice_refresh_token =
     \<lparr>jose_header = [(''alg'', JString ''HS256''), (''typ'', JString ''JWT'')],
      payload = [(''_id'', JObjectId 1), (''iat'', JNumber 5), (''exp'', JNumber 864005)],
      signature = HMAC_SHA256 ''refresh-secret''
                    [(''alg'', JString ''HS256''), (''typ'', JString ''JWT'')]
                    [(''_id'', JObjectId 1), (''iat'', JNumber 5), (''exp'', JNumber 864005)]\<rparr>"

text \<open>The same user after a password change and a login; a configuration that differs in the
  refresh-token settings only.\<close>

definition alice_later :: user where
  "alice_later = alice_stored\<lparr>password := Some (BcryptDigest 10 8 (Lit ''hunter2'')),
                              refreshToken := Some ''token'', updatedAt := Some 7000\<rparr>"

definition other_env :: env where
  "other_env = example_env\<lparr>REFRESH_TOKEN_SECRET := Some ''rotated'',
                           REFRESH_TOKEN_EXPIRY := Some 1000\<rparr>"

section \<open>Properties of the string operations\<close>

lemma of_char_lower: "isUpperCase c \<Longrightarrow> (of_char (toLowerCase_char c) :: nat) = of_char c + 32"
  unfolding toLowerCase_char_def isUpperCase_def Let_def
  by (auto simp: of_char_of)

lemma isWhiteSpace_toLowerCase_char: "isWhiteSpace (toLowerCase_char c) = isWhiteSpace c"
proof (cases "isUpperCase c")
  case True
  then have "(of_char (toLowerCase_char c) :: nat) = of_char c + 32" by (rule of_char_lower)
  with True show ?thesis
    unfolding isWhiteSpace_def isUpperCase_def Let_def by auto
next
  case False
  then show ?thesis by (simp add: toLowerCase_char_def)
qed






text \<open>The two setters commute, so the order in which Mongoose runs them does not matter.\<close>

lemma toLowerCase_trim: "toLowerCase (trim s) = trim (toLowerCase s)"
proof -
  have eq: "isWhiteSpace \<circ> toLowerCase_char = isWhiteSpace"
    by (rule ext) (simp add: isWhiteSpace_toLowerCase_char)
  show ?thesis
    by (simp add: trim_def toLowerCase_def dropWhile_map rev_map eq)
qed

section \<open>Properties of asyncHandler\<close>

lemma asyncHandler_throw:
  assumes "requestHandler req res next s = (Throw err, s1)"
  shows "asyncHandler requestHandler req res next s =
           \<lparr>returned = Throw err, chained = None, forwarded = [], final = s1\<rparr>"
  using assms by (simp add: asyncHandler_def)

text \<open>
  A handler whose promise rejects: the wrapper returns normally and its callback passes the
  rejection value, and nothing else, to \<open>next\<close>, once.
\<close>

lemma asyncHandler_rejected:
  assumes "requestHandler req res next s = (Normal (PromiseOf (Rejected err)), s1)"
  shows "returned (asyncHandler requestHandler req res next s) = Normal ()"
    and "forwarded (asyncHandler requestHandler req res next s) = [err]"
    and "final (asyncHandler requestHandler req res next s) = snd (next err s1)"
  using assms
  by (simp_all add: asyncHandler_def promise_catch_def promise_resolve_def
      split: prod.splits completion.splits)

lemma asyncHandler_rejection_forwarded:
  "asyncHandler rejecting_handler () () recording_next [] =
     \<lparr>returned = Normal (), chained = Some (Fulfilled ()), forwarded = [''boom''],
      final = [''boom'']\<rparr>"
  by (simp add: asyncHandler_def rejecting_handler_def promise_resolve_def promise_catch_def
      recording_next_def)

text \<open>
  C1. The wrapper is to forward every failure of the handler to \<open>next\<close>, also a synchronous
  throw, and never to throw itself. The code evaluates \<open>requestHandler(req, res, next)\<close>
  as the argument of \<open>Promise.resolve\<close>, outside any \<open>try\<close>: a handler that throws
  before it returns makes the wrapper throw the same value, and \<open>next\<close> is never called.
\<close>

theorem asyncHandler_sync_throw_escapes:
  "asyncHandler throwing_handler () () recording_next [] =
     \<lparr>returned = Throw ''boom'', chained = None, forwarded = [], final = []\<rparr>"
  by (simp add: asyncHandler_def throwing_handler_def)

text \<open>
  C10. When the handler returns without throwing and what it returns is an ordinary value
  or a promise that fulfills, the wrapper's own callback never calls \<open>next\<close>: nothing is
  forwarded, and the state is the one the handler left.
\<close>

theorem asyncHandler_success_no_next:
  assumes "requestHandler req res next s = (Normal r, s1)"
    and "r = Plain v \<or> r = PromiseOf (Fulfilled v)"
  shows "asyncHandler requestHandler req res next s =
           \<lparr>returned = Normal (), chained = Some (Fulfilled v), forwarded = [], final = s1\<rparr>"
  using assms by (auto simp: asyncHandler_def promise_resolve_def promise_catch_def)

theorem asyncHandler_success_no_next_witness:
  "responding_handler () () recording_next [] = (Normal (PromiseOf (Fulfilled ())), [])
   \<and> forwarded (asyncHandler responding_handler () () recording_next []) = []
   \<and> final (asyncHandler responding_handler () () recording_next []) = []"
proof -
  have h: "responding_handler () () recording_next [] = (Normal (PromiseOf (Fulfilled ())), [])"
    by (simp add: responding_handler_def)
  have "asyncHandler responding_handler () () recording_next [] =
          \<lparr>returned = Normal (), chained = Some (Fulfilled ()), forwarded = [], final = []\<rparr>"
    using asyncHandler_success_no_next
        [of responding_handler "()" "()" recording_next "[]" "PromiseOf (Fulfilled ())" "[]" "()"] h
    by simp
  with h show ?thesis by simp
qed

section \<open>Properties of ApiError\<close>

text \<open>
  C6. The constructed error has the given status code, the given message or the fallback
  message when none is given, \<open>success = false\<close>, \<open>data = null\<close>, and the given errors or
  the empty sequence when none is given.
\<close>

theorem ApiError_fields:
  "statusCode (ApiError status msg errs stk) = status
   \<and> message (ApiError status (Some m) errs stk) = m
   \<and> message (ApiError status None errs stk) = ''Something went wrong''
   \<and> success (ApiError status msg errs stk) = False
   \<and> data (ApiError status msg errs stk) = None
   \<and> errors (ApiError status msg (Some es) stk) = es
   \<and> errors (ApiError status msg None stk) = []"
  by (simp add: ApiError_def default_param_def Let_def)

section \<open>Properties of the collection and of \<open>save\<close>\<close>

lemma findById_append_new:
  assumes "\<not> list_ex (\<lambda>x. obj_id x = obj_id u) coll"
  shows "findById (coll @ [u]) (obj_id u) = Some u"
  using assms by (induction coll) (simp_all add: findById_def)

lemma findById_Some_id: "findById coll i = Some old \<Longrightarrow> obj_id old = i"
  by (induction coll) (auto simp: findById_def split: if_splits)

lemma findById_replace:
  assumes "findById coll i = Some old" and "obj_id new = i"
  shows "findById (map (\<lambda>x. if obj_id x = i then new else x) coll) i = Some new"
  using assms by (induction coll) (auto simp: findById_def split: if_splits)

lemma obj_id_apply_delta: "obj_id (apply_delta paths src old) = obj_id old"
  by (simp add: apply_delta_def)

lemma write_doc_stored:
  assumes "write_doc coll d = Inr coll'"
  shows "findById coll' (obj_id (obj d)) =
           Some (if isNew d then obj d
                 else apply_delta (modifiedPaths d) (obj d) (the (findById coll (obj_id (obj d)))))"
proof (cases "isNew d")
  case True
  with assms have "\<not> list_ex (\<lambda>x. obj_id x = obj_id (obj d)) coll" and "coll' = coll @ [obj d]"
    by (auto simp: write_doc_def split: if_splits option.splits)
  with True show ?thesis by (simp add: findById_append_new)
next
  case False
  with assms obtain old where old: "findById coll (obj_id (obj d)) = Some old"
    by (auto simp: write_doc_def split: option.splits)
  let ?new = "apply_delta (modifiedPaths d) (obj d) old"
  have idn: "obj_id ?new = obj_id (obj d)"
    using findById_Some_id [OF old] by (simp add: obj_id_apply_delta)
  from assms False old
  have "coll' = map (\<lambda>x. if obj_id x = obj_id ?new then ?new else x) coll"
    by (auto simp: write_doc_def Let_def split: option.splits)
  with idn old False show ?thesis
    by (simp add: findById_replace)
qed

lemma write_doc_not_new:
  assumes "write_doc coll d = Inr coll'" and "findById coll (obj_id (obj d)) = Some old"
  shows "\<not> isNew d"
proof
  assume "isNew d"
  with assms(1) have "\<not> list_ex (\<lambda>x. obj_id x = obj_id (obj d)) coll"
    by (auto simp: write_doc_def split: if_splits)
  then have "findById coll (obj_id (obj d)) = None"
    by (induction coll) (simp_all add: findById_def)
  with assms(2) show False by simp
qed

lemma save_Inr:
  assumes "save rnd clock coll d = (Inr d', coll')"
  obtains d1 where "validate (obj d) = Inr ()" and "pre_save rnd d = Inr d1"
    and "write_doc coll (timestamps clock d1) = Inr coll'"
    and "d' = (timestamps clock d1)\<lparr>modifiedPaths := {}, isNew := False\<rparr>"
  using assms by (auto simp: save_def Let_def split: sum.splits)

lemma save_Inl:
  assumes "save rnd clock coll d = (Inl err, coll')"
  shows "coll' = coll"
  using assms by (auto simp: save_def Let_def split: sum.splits)

lemma timestamps_obj [simp]:
  "obj_id (obj (timestamps clock d)) = obj_id (obj d)"
  "username (obj (timestamps clock d)) = username (obj d)"
  "email (obj (timestamps clock d)) = email (obj d)"
  "password (obj (timestamps clock d)) = password (obj d)"
  "isNew (timestamps clock d) = isNew d"
  by (simp_all add: timestamps_def Let_def)

lemma timestamps_password_path [simp]:
  "(''password'' \<in> modifiedPaths (timestamps clock d)) = (''password'' \<in> modifiedPaths d)"
  "(''username'' \<in> modifiedPaths (timestamps clock d)) = (''username'' \<in> modifiedPaths d)"
  "(''email'' \<in> modifiedPaths (timestamps clock d)) = (''email'' \<in> modifiedPaths d)"
  by (simp_all add: timestamps_def Let_def)

lemma pre_save_unmodified: "\<not> isModified d ''password'' \<Longrightarrow> pre_save rnd d = Inr d"
  by (simp add: pre_save_def)

lemma pre_save_modified:
  assumes "isModified d ''password''" and "pre_save rnd d = Inr d1"
  obtains slt plain where "rnd = Some slt" and "password (obj d) = Some plain"
    and "d1 = assign_password (bcrypt_digest 10 slt plain) d"
  using assms by (auto simp: pre_save_def bcrypt_hash_def split: option.splits sum.splits)

lemma assign_password_obj [simp]:
  "obj_id (obj (assign_password v d)) = obj_id (obj d)"
  "username (obj (assign_password v d)) = username (obj d)"
  "email (obj (assign_password v d)) = email (obj d)"
  "password (obj (assign_password v d)) = Some v"
  "isNew (assign_password v d) = isNew d"
  by (simp_all add: assign_password_def mark_path_def)

lemma assign_password_keeps_mark:
  "path \<in> modifiedPaths d \<Longrightarrow> path \<in> modifiedPaths (assign_password v d)"
  by (simp add: assign_password_def mark_path_def)

section \<open>Properties of the password hook\<close>

lemma BcryptDigest_neq: "BcryptDigest rounds slt x \<noteq> x"
  by (induction x) simp_all

lemma bcrypt_trunc_idem [simp]: "bcrypt_trunc (bcrypt_trunc x) = bcrypt_trunc x"
  by (cases x) simp_all

lemma bcrypt_digest_neq: "bcrypt_digest rounds slt plain \<noteq> plain"
proof (cases plain)
  case (Lit s)
  then show ?thesis by (simp add: bcrypt_digest_def)
next
  case (BcryptDigest r s x)
  then show ?thesis using BcryptDigest_neq [of rounds slt plain] by (simp add: bcrypt_digest_def)
qed

lemma bcrypt_compare_own:
  "bcrypt_compare (Some plain) (Some (bcrypt_digest rounds slt plain)) = Inr True"
  by (simp add: bcrypt_compare_def bcrypt_digest_def)

lemma bcrypt_compare_other:
  "bcrypt_trunc candidate \<noteq> bcrypt_trunc plain \<Longrightarrow>
     bcrypt_compare (Some candidate) (Some (bcrypt_digest rounds slt plain)) = Inr False"
  by (simp add: bcrypt_compare_def bcrypt_digest_def)

text \<open>A registration that supplies a password has its \<open>password\<close> path modified, and a
  valid registration that collides with no stored document is saved.\<close>

lemma new_User_password_modified:
  assumes "password raw = Some plain"
  shows "isModified (new_User raw) ''password''"
    and "password (obj (new_User raw)) = Some plain"
  using assms by (simp_all add: new_User_def isModified_def supplied_def)

lemma unique_violation_cong:
  assumes "obj_id u = obj_id u'" and "username u = username u'" and "email u = email u'"
  shows "unique_violation coll u = unique_violation coll u'"
  using assms by (simp add: unique_violation_def)

lemma save_new_User_succeeds:
  assumes "validate (obj (new_User raw)) = Inr ()"
    and "\<not> list_ex (\<lambda>x. obj_id x = obj_id raw) coll"
    and "unique_violation coll (obj (new_User raw)) = None"
  shows "\<exists>d'. save (Some slt) clock coll (new_User raw) = (Inr d', coll @ [obj d'])"
proof -
  let ?d = "new_User raw"
  have "\<exists>p. password (obj ?d) = Some p"
    using assms(1)
    by (cases "password (obj ?d)")
       (auto simp: validate_def required_password_def Let_def split: if_splits)
  then obtain p where p: "password (obj ?d) = Some p" ..
  have "\<exists>d1. pre_save (Some slt) ?d = Inr d1"
    using p by (simp add: pre_save_def bcrypt_hash_def)
  then obtain d1 where pre: "pre_save (Some slt) ?d = Inr d1" ..
  have same: "obj_id (obj d1) = obj_id raw" "username (obj d1) = username (obj ?d)"
    "email (obj d1) = email (obj ?d)" "isNew d1"
    using pre
    by (auto simp: pre_save_def new_User_def split: if_splits sum.splits)
  let ?d2 = "timestamps clock d1"
  have "unique_violation coll (obj ?d2) = unique_violation coll (obj ?d)"
    by (rule unique_violation_cong) (simp_all add: same new_User_def)
  with assms(3) have uv: "unique_violation coll (obj ?d2) = None" by simp
  have "write_doc coll ?d2 = Inr (coll @ [obj ?d2])"
    using assms(2) uv same by (simp add: write_doc_def)
  with assms(1) pre
  have "save (Some slt) clock coll ?d =
          (Inr (?d2\<lparr>modifiedPaths := {}, isNew := False\<rparr>),
           coll @ [obj (?d2\<lparr>modifiedPaths := {}, isNew := False\<rparr>)])"
    by (simp add: save_def Let_def)
  then show ?thesis ..
qed

text \<open>
  C2. When a document whose \<open>password\<close> path is modified is saved, the hook has replaced the
  value by \<open>bcrypt.hash(value, 10)\<close> before the write: the stored password is that digest,
  it differs from the submitted text, and \<open>isPasswordCorrect\<close> with the submitted text
  returns true.
\<close>

theorem save_hashes_modified_password:
  assumes "isModified d ''password''"
    and "password (obj d) = Some plain"
    and "save rnd clock coll d = (Inr d', coll')"
  shows "\<exists>slt stored. rnd = Some slt
           \<and> bcrypt_hash rnd (Some plain) 10 = Inr (bcrypt_digest 10 slt plain)
           \<and> findById coll' (obj_id (obj d)) = Some stored
           \<and> password stored = Some (bcrypt_digest 10 slt plain)
           \<and> password stored \<noteq> Some plain
           \<and> isPasswordCorrect stored (Some plain) = Inr True"
proof -
  from assms(3) obtain d1 where pre: "pre_save rnd d = Inr d1"
    and wr: "write_doc coll (timestamps clock d1) = Inr coll'"
    by (rule save_Inr)
  from assms(1) pre obtain slt p where rnd: "rnd = Some slt" and p: "password (obj d) = Some p"
    and d1: "d1 = assign_password (bcrypt_digest 10 slt p) d"
    by (rule pre_save_modified)
  from p assms(2) have [simp]: "p = plain" by simp
  let ?d2 = "timestamps clock d1"
  let ?stored = "if isNew ?d2 then obj ?d2
                 else apply_delta (modifiedPaths ?d2) (obj ?d2) (the (findById coll (obj_id (obj ?d2))))"
  have marked: "''password'' \<in> modifiedPaths ?d2"
    using assms(1) d1 by (simp add: isModified_def assign_password_keeps_mark)
  have found: "findById coll' (obj_id (obj d)) = Some ?stored"
    using write_doc_stored [OF wr] d1 by simp
  have pw: "password ?stored = Some (bcrypt_digest 10 slt plain)"
    using marked d1 by (simp add: apply_delta_def)
  have "bcrypt_hash rnd (Some plain) 10 = Inr (bcrypt_digest 10 slt plain)"
    using rnd by (simp add: bcrypt_hash_def)
  moreover have "password ?stored \<noteq> Some plain"
    using pw bcrypt_digest_neq [of 10 slt plain] by simp
  moreover have "isPasswordCorrect ?stored (Some plain) = Inr True"
    using pw by (simp add: isPasswordCorrect_def bcrypt_compare_own)
  ultimately show ?thesis using rnd found pw by blast
qed

text \<open>
  C3. When the \<open>password\<close> path is not modified, the hook returns the document as it is
  (no path is touched), and the password stored for the document is the same after the
  save as before it, whether the save succeeds or fails.
\<close>

theorem save_keeps_unmodified_password:
  assumes "\<not> isModified d ''password''"
    and "findById coll (obj_id (obj d)) = Some old"
  shows "pre_save rnd d = Inr d
         \<and> (\<exists>new. findById (snd (save rnd clock coll d)) (obj_id (obj d)) = Some new
                  \<and> password new = password old)"
proof
  show pre: "pre_save rnd d = Inr d" using assms(1) by (rule pre_save_unmodified)
  show "\<exists>new. findById (snd (save rnd clock coll d)) (obj_id (obj d)) = Some new
                  \<and> password new = password old"
  proof (cases "fst (save rnd clock coll d)")
    case (Inl err)
    then have "save rnd clock coll d = (Inl err, snd (save rnd clock coll d))"
      by (simp add: prod_eq_iff)
    then have "snd (save rnd clock coll d) = coll" by (rule save_Inl)
    with assms(2) show ?thesis by simp
  next
    case (Inr d')
    then have sv: "save rnd clock coll d = (Inr d', snd (save rnd clock coll d))"
      by (simp add: prod_eq_iff)
    let ?coll' = "snd (save rnd clock coll d)"
    from sv obtain d1 where "pre_save rnd d = Inr d1"
      and "write_doc coll (timestamps clock d1) = Inr ?coll'"
      by (rule save_Inr)
    with pre have wr: "write_doc coll (timestamps clock d) = Inr ?coll'" by simp
    let ?d2 = "timestamps clock d"
    have old2: "findById coll (obj_id (obj ?d2)) = Some old" using assms(2) by simp
    have notnew: "\<not> isNew ?d2" using wr old2 by (rule write_doc_not_new)
    have "findById ?coll' (obj_id (obj d)) =
            Some (apply_delta (modifiedPaths ?d2) (obj ?d2) old)"
      using write_doc_stored [OF wr] notnew old2 by simp
    moreover have "password (apply_delta (modifiedPaths ?d2) (obj ?d2) old) = password old"
      using assms(1) by (simp add: apply_delta_def isModified_def)
    ultimately show ?thesis by blast
  qed
qed

text \<open>
  C4. When \<open>bcrypt.hash\<close> fails inside the hook, the hook fails with that error, the save
  is rejected with the same error, and the collection is left as it was: nothing is
  written.
\<close>

theorem save_aborts_when_hashing_fails:
  assumes "validate (obj d) = Inr ()"
    and "isModified d ''password''"
    and "bcrypt_hash rnd (password (obj d)) 10 = Inl err"
  shows "pre_save rnd d = Inl err \<and> save rnd clock coll d = (Inl err, coll)"
  using assms by (simp add: save_def pre_save_def)

section \<open>The registration example\<close>

lemma save_alice:
  "save (Some 7) 5000 [] (new_User alice) = (Inr alice_loaded, [alice_stored])"
  by code_simp

lemma load_alice: "load [alice_stored] 1 = Some alice_loaded"
  by code_simp

lemma alice_wrong_password:
  "isPasswordCorrect alice_stored (Some (Lit ''wrong'')) = Inr False"
  by code_simp

theorem save_hashes_modified_password_witness:
  "isModified (new_User alice) ''password''
   \<and> password (obj (new_User alice)) = Some (Lit ''secret123'')
   \<and> save (Some 7) 5000 [] (new_User alice) = (Inr alice_loaded, [alice_stored])
   \<and> password alice_stored = Some (bcrypt_digest 10 7 (Lit ''secret123''))
   \<and> password alice_stored \<noteq> Some (Lit ''secret123'')
   \<and> isPasswordCorrect alice_stored (Some (Lit ''secret123'')) = Inr True"
proof -
  have h1: "isModified (new_User alice) ''password''" by code_simp
  have h2: "password (obj (new_User alice)) = Some (Lit ''secret123'')" by code_simp
  have id: "obj_id (obj (new_User alice)) = 1" by code_simp
  have f: "findById [alice_stored] 1 = Some alice_stored" by code_simp
  from save_hashes_modified_password [OF h1 h2 save_alice]
  obtain slt stored where "Some 7 = Some slt"
    and "findById [alice_stored] (obj_id (obj (new_User alice))) = Some stored"
    and "password stored = Some (bcrypt_digest 10 slt (Lit ''secret123''))"
    and "password stored \<noteq> Some (Lit ''secret123'')"
    and "isPasswordCorrect stored (Some (Lit ''secret123'')) = Inr True"
    by blast
  with id f h1 h2 save_alice show ?thesis by simp
qed

theorem save_keeps_unmodified_password_witness:
  "\<not> isModified alice_with_token ''password''
   \<and> findById [alice_stored] (obj_id (obj alice_with_token)) = Some alice_stored
   \<and> pre_save (Some 9) alice_with_token = Inr alice_with_token
   \<and> map_option password (findById (snd (save (Some 9) 6000 [alice_stored] alice_with_token)) 1)
       = Some (password alice_stored)
   \<and> map_option refreshToken (findById (snd (save (Some 9) 6000 [alice_stored] alice_with_token)) 1)
       = Some (Some ''token'')"
proof -
  have h1: "\<not> isModified alice_with_token ''password''" by code_simp
  have h2: "findById [alice_stored] (obj_id (obj alice_with_token)) = Some alice_stored"
    by code_simp
  have id: "obj_id (obj alice_with_token) = 1" by code_simp
  have t: "map_option refreshToken
             (findById (snd (save (Some 9) 6000 [alice_stored] alice_with_token)) 1)
           = Some (Some ''token'')" by code_simp
  from save_keeps_unmodified_password [OF h1 h2, of "Some 9" 6000] id
  have "pre_save (Some 9) alice_with_token = Inr alice_with_token"
    and "\<exists>new. findById (snd (save (Some 9) 6000 [alice_stored] alice_with_token)) 1 = Some new
            \<and> password new = password alice_stored"
    by simp_all
  with h1 h2 t show ?thesis by auto
qed

theorem save_aborts_when_hashing_fails_witness:
  "validate (obj alice_new_password) = Inr ()
   \<and> isModified alice_new_password ''password''
   \<and> bcrypt_hash None (password (obj alice_new_password)) 10 = Inl (Error ''bcrypt failed'')
   \<and> save None 6000 [alice_stored] alice_new_password = (Inl (Error ''bcrypt failed''), [alice_stored])"
proof -
  have h1: "validate (obj alice_new_password) = Inr ()" by code_simp
  have h2: "isModified alice_new_password ''password''" by code_simp
  have h3: "bcrypt_hash None (password (obj alice_new_password)) 10 = Inl (Error ''bcrypt failed'')"
    by code_simp
  from save_aborts_when_hashing_fails [OF h1 h2 h3, of 6000 "[alice_stored]"] h1 h2 h3
  show ?thesis by simp
qed

text \<open>An assignment to \<open>username\<close> or \<open>email\<close> goes through the same setters.\<close>

lemma assign_username_normalised:
  "username (obj (assign_username v d)) = Some (toLowerCase (trim v))"
  by (simp add: assign_username_def mark_path_def set_username_def Let_def)

lemma assign_email_normalised:
  "email (obj (assign_email v d)) = Some (toLowerCase (trim v))"
  by (simp add: assign_email_def mark_path_def set_email_def Let_def)



section \<open>Properties of the token methods\<close>

lemma alice_tokens:
  "generateAccessToken example_env 5000 alice_stored = Inr alice_access_token"
  "generateRefreshToken example_env 5000 alice_stored = Inr alice_refresh_token"
  by code_simp+


lemma jwt_sign_configured:
  assumes "secret = Some key" and "key \<noteq> []" and "expiresIn = Some span"
  shows "\<exists>t. jwt_sign props secret expiresIn clock = Inr t
           \<and> payload t = json_stringify props
                            @ [(''iat'', JNumber (clock div 1000)),
                               (''exp'', JNumber (clock div 1000 + span div 1000))]"
  using assms by (simp add: jwt_sign_def Let_def)

lemma application_claims_append:
  "application_claims (xs @ ys) = application_claims xs @ application_claims ys"
  by (simp add: application_claims_def)

lemma application_claims_standard [simp]:
  "application_claims [(''iat'', a), (''exp'', b)] = []"
  by (simp add: application_claims_def registered_claims_def)

text \<open>
  C5, as the code has it. With both secrets and lifetimes configured and \<open>email\<close>,
  \<open>username\<close> and \<open>fullName\<close> set, both methods return a token; the access token's
  application claims are exactly \<open>_id\<close>, \<open>email\<close>, \<open>username\<close>, \<open>fullName\<close> with the
  record's values, the refresh token's exactly \<open>_id\<close>; the registered claims of both are
  \<open>iat\<close> and \<open>exp\<close>.
\<close>

theorem token_payload_claims:
  assumes "ACCESS_TOKEN_SECRET cfg = Some a" and "a \<noteq> []"
    and "ACCESS_TOKEN_EXPIRY cfg = Some x"
    and "REFRESH_TOKEN_SECRET cfg = Some r" and "r \<noteq> []"
    and "REFRESH_TOKEN_EXPIRY cfg = Some y"
    and "email u = Some e" and "username u = Some n" and "fullName u = Some f"
  shows "\<exists>at rt. generateAccessToken cfg clock u = Inr at
           \<and> generateRefreshToken cfg clock u = Inr rt
           \<and> application_claims (jwt_decode at) =
               [(''_id'', JObjectId (obj_id u)), (''email'', JString e),
                (''username'', JString n), (''fullName'', JString f)]
           \<and> application_claims (jwt_decode rt) = [(''_id'', JObjectId (obj_id u))]
           \<and> map fst (jwt_decode at) =
               [''_id'', ''email'', ''username'', ''fullName'', ''iat'', ''exp'']
           \<and> map fst (jwt_decode rt) = [''_id'', ''iat'', ''exp'']"
proof -
  let ?aprops = "[(''_id'', Some (JObjectId (obj_id u))),
                  (''email'', map_option JString (email u)),
                  (''username'', map_option JString (username u)),
                  (''fullName'', map_option JString (fullName u))]"
  let ?rprops = "[(''_id'', Some (JObjectId (obj_id u)))]"
  from jwt_sign_configured [OF assms(1,2,3), of ?aprops clock]
  obtain at where at: "generateAccessToken cfg clock u = Inr at"
    and pat: "payload at = json_stringify ?aprops
                @ [(''iat'', JNumber (clock div 1000)),
                   (''exp'', JNumber (clock div 1000 + x div 1000))]"
    by (auto simp: generateAccessToken_def)
  from jwt_sign_configured [OF assms(4,5,6), of ?rprops clock]
  obtain rt where rt: "generateRefreshToken cfg clock u = Inr rt"
    and prt: "payload rt = json_stringify ?rprops
                @ [(''iat'', JNumber (clock div 1000)),
                   (''exp'', JNumber (clock div 1000 + y div 1000))]"
    by (auto simp: generateRefreshToken_def)
  have ja: "json_stringify ?aprops =
              [(''_id'', JObjectId (obj_id u)), (''email'', JString e),
               (''username'', JString n), (''fullName'', JString f)]"
    using assms(7,8,9) by (simp add: json_stringify_def List.map_filter_simps)
  have jr: "json_stringify ?rprops = [(''_id'', JObjectId (obj_id u))]"
    by (simp add: json_stringify_def List.map_filter_simps)
  have "application_claims (jwt_decode at) =
               [(''_id'', JObjectId (obj_id u)), (''email'', JString e),
                (''username'', JString n), (''fullName'', JString f)]"
    unfolding jwt_decode_def pat ja application_claims_append
    by (simp add: application_claims_def registered_claims_def)
  moreover have "application_claims (jwt_decode rt) = [(''_id'', JObjectId (obj_id u))]"
    unfolding jwt_decode_def prt jr application_claims_append
    by (simp add: application_claims_def registered_claims_def)
  moreover have "map fst (jwt_decode at) =
               [''_id'', ''email'', ''username'', ''fullName'', ''iat'', ''exp'']"
    unfolding jwt_decode_def pat ja by simp
  moreover have "map fst (jwt_decode rt) = [''_id'', ''iat'', ''exp'']"
    unfolding jwt_decode_def prt jr by simp
  ultimately show ?thesis using at rt
    by (intro exI [of _ at] exI [of _ rt]) (simp only: simp_thms)
qed

theorem token_payload_claims_witness:
  "generateAccessToken example_env 5000 alice_stored = Inr alice_access_token
   \<and> generateRefreshToken example_env 5000 alice_stored = Inr alice_refresh_token
   \<and> application_claims (jwt_decode alice_access_token) =
       [(''_id'', JObjectId 1), (''email'', JString ''a@x.com''),
        (''username'', JString ''alice''), (''fullName'', JString ''Alice A'')]
   \<and> application_claims (jwt_decode alice_refresh_token) = [(''_id'', JObjectId 1)]"
proof -
  have c: "ACCESS_TOKEN_SECRET example_env = Some ''access-secret''" "''access-secret'' \<noteq> []"
    "ACCESS_TOKEN_EXPIRY example_env = Some 86400000"
    "REFRESH_TOKEN_SECRET example_env = Some ''refresh-secret''" "''refresh-secret'' \<noteq> []"
    "REFRESH_TOKEN_EXPIRY example_env = Some 864000000"
    by (simp_all add: example_env_def)
  have u: "email alice_stored = Some ''a@x.com''" "username alice_stored = Some ''alice''"
    "fullName alice_stored = Some ''Alice A''" "obj_id alice_stored = 1"
    by (simp_all add: alice_stored_def)
  from token_payload_claims [OF c u(1,2,3), of 5000] alice_tokens u(4)
  show ?thesis by auto
qed

text \<open>C5. The identifier claim is named \<open>_id\<close>: the decoded access token has no claim
  \<open>id\<close>.\<close>

theorem access_token_has_no_id_claim:
  "(case generateAccessToken example_env 5000 alice_stored of
      Inl err \<Rightarrow> False
    | Inr t \<Rightarrow>
        map fst (application_claims (jwt_decode t)) = [''_id'', ''email'', ''username'', ''fullName'']
        \<and> ''id'' \<notin> set (map fst (jwt_decode t)))"
  by code_simp

text \<open>
  C7. The methods read the clock: \<open>jwt.sign\<close> stamps \<open>iat\<close> and derives \<open>exp\<close> from it.
  The same record under the same configuration gets different tokens one second apart.
\<close>

theorem tokens_depend_on_clock:
  "generateAccessToken example_env 5000 alice_stored = Inr alice_access_token
   \<and> generateAccessToken example_env 6000 alice_stored \<noteq> Inr alice_access_token
   \<and> generateRefreshToken example_env 5000 alice_stored = Inr alice_refresh_token
   \<and> generateRefreshToken example_env 6000 alice_stored \<noteq> Inr alice_refresh_token"
  by code_simp

lemma jwt_sign_second:
  "clock div 1000 = clock' div 1000 \<Longrightarrow>
     jwt_sign props secret expiresIn clock = jwt_sign props secret expiresIn clock'"
  by (simp add: jwt_sign_def Let_def split: option.splits)

text \<open>
  C7, as the code has it. The access token is determined by the record's \<open>_id\<close>,
  \<open>email\<close>, \<open>username\<close> and \<open>fullName\<close>, the access secret and lifetime, and the second
  of the clock; the refresh token by \<open>_id\<close>, the refresh secret and lifetime, and the second
  of the clock. Nothing else is read.
\<close>

theorem tokens_determined_by_claims_config_second:
  "(obj_id u = obj_id u' \<and> email u = email u' \<and> username u = username u'
      \<and> fullName u = fullName u'
      \<and> ACCESS_TOKEN_SECRET cfg = ACCESS_TOKEN_SECRET cfg'
      \<and> ACCESS_TOKEN_EXPIRY cfg = ACCESS_TOKEN_EXPIRY cfg'
      \<and> clock div 1000 = clock' div 1000
    \<longrightarrow> generateAccessToken cfg clock u = generateAccessToken cfg' clock' u')
   \<and> (obj_id u = obj_id u'
      \<and> REFRESH_TOKEN_SECRET cfg = REFRESH_TOKEN_SECRET cfg'
      \<and> REFRESH_TOKEN_EXPIRY cfg = REFRESH_TOKEN_EXPIRY cfg'
      \<and> clock div 1000 = clock' div 1000
    \<longrightarrow> generateRefreshToken cfg clock u = generateRefreshToken cfg' clock' u')"
proof (intro conjI impI)
  assume a: "obj_id u = obj_id u' \<and> email u = email u' \<and> username u = username u'
      \<and> fullName u = fullName u'
      \<and> ACCESS_TOKEN_SECRET cfg = ACCESS_TOKEN_SECRET cfg'
      \<and> ACCESS_TOKEN_EXPIRY cfg = ACCESS_TOKEN_EXPIRY cfg'
      \<and> clock div 1000 = clock' div 1000"
  then have "clock div 1000 = clock' div 1000" by simp
  from jwt_sign_second [OF this] a
  show "generateAccessToken cfg clock u = generateAccessToken cfg' clock' u'"
    by (simp add: generateAccessToken_def)
next
  assume a: "obj_id u = obj_id u'
      \<and> REFRESH_TOKEN_SECRET cfg = REFRESH_TOKEN_SECRET cfg'
      \<and> REFRESH_TOKEN_EXPIRY cfg = REFRESH_TOKEN_EXPIRY cfg'
      \<and> clock div 1000 = clock' div 1000"
  then have "clock div 1000 = clock' div 1000" by simp
  from jwt_sign_second [OF this] a
  show "generateRefreshToken cfg clock u = generateRefreshToken cfg' clock' u'"
    by (simp add: generateRefreshToken_def)
qed

theorem tokens_determined_by_claims_config_second_witness:
  "alice_later \<noteq> alice_stored \<and> other_env \<noteq> example_env
   \<and> (5000::int) div 1000 = 5999 div 1000
   \<and> generateAccessToken example_env 5000 alice_stored
       = generateAccessToken other_env 5999 alice_later
   \<and> generateRefreshToken example_env 5000 alice_stored
       = generateRefreshToken example_env 5999 alice_later"
proof -
  have u: "obj_id alice_stored = obj_id alice_later" "email alice_stored = email alice_later"
    "username alice_stored = username alice_later" "fullName alice_stored = fullName alice_later"
    by (simp_all add: alice_later_def)
  have c: "ACCESS_TOKEN_SECRET example_env = ACCESS_TOKEN_SECRET other_env"
    "ACCESS_TOKEN_EXPIRY example_env = ACCESS_TOKEN_EXPIRY other_env"
    by (simp_all add: other_env_def)
  have t: "(5000::int) div 1000 = 5999 div 1000" by simp
  have d: "alice_later \<noteq> alice_stored" "other_env \<noteq> example_env" by code_simp+
  from tokens_determined_by_claims_config_second
         [of alice_stored alice_later example_env other_env 5000 5999] u c t
  have "generateAccessToken example_env 5000 alice_stored
          = generateAccessToken other_env 5999 alice_later" by blast
  moreover
  from tokens_determined_by_claims_config_second
         [of alice_stored alice_later example_env example_env 5000 5999] u t
  have "generateRefreshToken example_env 5000 alice_stored
          = generateRefreshToken example_env 5999 alice_later" by blast
  ultimately show ?thesis using d t by simp
qed

text \<open>A token verifies under the secret that signed it, until it expires.\<close>

lemma jwt_verify_own_secret:
  assumes "jwt_sign props secret (Some span) clock = Inr t"
    and "map_of (json_stringify props) ''exp'' = None"
    and "clock' div 1000 < clock div 1000 + span div 1000"
  shows "jwt_verify t secret clock' = Inr (payload t)"
  using assms
  by (auto simp: jwt_sign_def jwt_verify_def Let_def map_add_def
      split: option.splits if_splits)



end
